theory Spec2Isabelle
  imports Main
begin

section \<open>Clang coverage extraction: the glob matcher\<close>

text \<open>
  The development embeds the nested functions of \<open>ExtractCoverageInfo\<close> in
  \<open>ClangCoverageTestExecutor.py\<close>. Python strings are \<open>string\<close>, Python's unbounded
  integers are \<open>int\<close>, an \<open>Optional\<close> value is an \<open>option\<close>, and a failed \<open>assert\<close> is
  the left injection of a sum.
\<close>

subsection \<open>\<open>str.split("::")\<close>\<close>

text \<open>
  \<open>value.split("::")\<close> scans left to right and cuts at every non-overlapping occurrence of
  the two-character separator; the result always has at least one part. \<open>acc\<close> holds the
  characters of the current part in reverse.
\<close>

fun split_acc :: "string \<Rightarrow> string \<Rightarrow> string list" where
  "split_acc acc [] = [rev acc]"
| "split_acc acc [c] = [rev (c # acc)]"
| "split_acc acc (c # d # rest) =
     (if c = CHR '':'' \<and> d = CHR '':'' then rev acc # split_acc [] rest
      else split_acc (c # acc) (d # rest))"

definition str_split :: "string \<Rightarrow> string list" where
  "str_split s = split_acc [] s"

subsection \<open>\<open>CreateItemMatcher\<close>\<close>

text \<open>
  The inner \<open>while\<close> of the \<open>*\<close> branch: advance the value cursor until it is at the end or
  at a part equal to the next glob part.
\<close>

function skip_until :: "string list \<Rightarrow> string \<Rightarrow> nat \<Rightarrow> nat" where
  "skip_until value_parts next_glob_part value_part_index =
     (if value_part_index < length value_parts
         \<and> value_parts ! value_part_index \<noteq> next_glob_part
      then skip_until value_parts next_glob_part (value_part_index + 1)
      else value_part_index)"
  by pat_completeness auto
termination
  by (relation "measure (\<lambda>(vp, n, i). length vp - i)") auto

declare skip_until.simps [simp del]

text \<open>
  How the outer \<open>while\<close> is left: through \<open>return True\<close> inside the \<open>*\<close> branch, or at the
  statement after the loop (the loop condition failed, or \<open>break\<close>), with the two cursors.
\<close>

datatype loop_exit = ReturnTrue | AfterLoop nat nat

function matcher_loop :: "string list \<Rightarrow> string list \<Rightarrow> nat \<Rightarrow> nat \<Rightarrow> loop_exit" where
  "matcher_loop glob_parts value_parts glob_part_index value_part_index =
     (if glob_part_index < length glob_parts \<and> value_part_index < length value_parts then
        (let glob_part = glob_parts ! glob_part_index;
             value_part = value_parts ! value_part_index
         in if glob_part = ''*{1}'' then
              matcher_loop glob_parts value_parts (glob_part_index + 1) (value_part_index + 1)
            else if glob_part = ''*'' then
              (if glob_part_index + 1 = length glob_parts then ReturnTrue
               else
                 (let next_glob_part = glob_parts ! (glob_part_index + 1)
                  in matcher_loop glob_parts value_parts (glob_part_index + 1)
                       (skip_until value_parts next_glob_part value_part_index)))
            else if glob_part \<noteq> value_part then
              AfterLoop glob_part_index value_part_index
            else
              matcher_loop glob_parts value_parts (glob_part_index + 1) (value_part_index + 1))
      else AfterLoop glob_part_index value_part_index)"
  by pat_completeness auto
termination
  by (relation "measure (\<lambda>(gp, vp, gi, vi). length gp - gi)") auto

declare matcher_loop.simps [simp del]

text \<open>The closure \<open>Impl\<close> returned by \<open>CreateItemMatcher(glob_value)\<close>, applied to \<open>value\<close>.\<close>

definition CreateItemMatcher :: "string \<Rightarrow> string \<Rightarrow> bool" where
  "CreateItemMatcher glob_value value =
     (let glob_parts = str_split glob_value;
          value_parts = str_split value
      in case matcher_loop glob_parts value_parts 0 0 of
           ReturnTrue \<Rightarrow> True
         | AfterLoop glob_part_index value_part_index \<Rightarrow>
             glob_part_index = length glob_parts \<and> value_part_index = length value_parts)"

subsection \<open>\<open>CreateSourceMatcher\<close>\<close>

text \<open>
  \<open>CodeCoverageContentFilter\<close> is imported from another repository; the code reads its two
  optional lists of globs, \<open>includes\<close> and \<open>excludes\<close>.
\<close>

record CodeCoverageContentFilter =
  filter_includes :: "string list option"
  filter_excludes :: "string list option"

text \<open>Python's \<open>xs or []\<close> on an optional list.\<close>

definition or_empty :: "'a list option \<Rightarrow> 'a list" where
  "or_empty xs = (case xs of None \<Rightarrow> [] | Some ys \<Rightarrow> ys)"

text \<open>The closure \<open>Impl\<close> returned by \<open>CreateSourceMatcher(filter)\<close>, applied to \<open>value\<close>.\<close>

definition CreateSourceMatcher :: "CodeCoverageContentFilter \<Rightarrow> string \<Rightarrow> bool" where
  "CreateSourceMatcher filter_arg value =
     (let include_funcs = map CreateItemMatcher (or_empty (filter_includes filter_arg));
          exclude_funcs = map CreateItemMatcher (or_empty (filter_excludes filter_arg))
      in if exclude_funcs \<noteq> [] \<and> list_ex (\<lambda>exclude_func. exclude_func value) exclude_funcs
         then False
         else if include_funcs \<noteq> [] \<and> \<not> list_ex (\<lambda>include_func. include_func value) include_funcs
         then False
         else True)"

section \<open>The coverage aggregator\<close>

subsection \<open>Data\<close>

text \<open>
  \<open>CoverageResult\<close> is imported from another repository; the code builds it from two
  positional values and reads \<open>covered\<close> and \<open>uncovered\<close>.
\<close>

record CoverageResult =
  covered :: int
  uncovered :: int

text \<open>
  One parsed line of the report. The code reads three keys of the object under \<open>file\<close> and
  the same three keys of the object under \<open>method\<close>; a key that is absent is \<open>None\<close>.
  Where present, a name is a string and a count is an integer, as the report format has
  them. An object under \<open>method\<close> none of whose three keys is present fails one of the two
  assertions on it whatever else it holds, as a missing \<open>method\<close> does.
\<close>

record json_object =
  name :: "string option"
  total_covered :: "int option"
  total_uncovered :: "int option"

record report_line =
  file_key :: "json_object option"
  method_key :: "json_object option"

definition empty_object :: json_object where
  "empty_object = \<lparr>name = None, total_covered = None, total_uncovered = None\<rparr>"

text \<open>\<open>data.get("file", {})\<close>\<close>

definition get_file :: "report_line \<Rightarrow> json_object" where
  "get_file data = (case file_key data of None \<Rightarrow> empty_object | Some file_data \<Rightarrow> file_data)"

datatype error = AssertionError

subsection \<open>The matchers of \<open>ApplyFunc\<close>\<close>

text \<open>The test that sends a glob to \<open>should_match_all_file_globs\<close>.\<close>

definition is_match_all :: "CodeCoverageContentFilter \<Rightarrow> bool" where
  "is_match_all v =
     (length (or_empty (filter_includes v)) = 1
      \<and> the (filter_includes v) ! 0 = ''*''
      \<and> filter_excludes v = None)"

text \<open>
  The dictionary \<open>source_filters\<close> is the list of its items in insertion order, with
  distinct keys. The first loop of \<open>ApplyFunc\<close> fills a set and a dictionary;
  \<open>dict_set\<close> is the assignment \<open>d[k] = v\<close>.
\<close>

fun dict_set :: "(string \<times> 'v) list \<Rightarrow> string \<Rightarrow> 'v \<Rightarrow> (string \<times> 'v) list" where
  "dict_set [] k v = [(k, v)]"
| "dict_set ((k', v') # d) k v = (if k' = k then (k, v) # d else (k', v') # dict_set d k v)"

fun create_matchers ::
  "(string \<times> CodeCoverageContentFilter) list
   \<Rightarrow> string set \<times> (string \<times> (string \<Rightarrow> bool)) list
   \<Rightarrow> string set \<times> (string \<times> (string \<Rightarrow> bool)) list" where
  "create_matchers [] (should_match_all_file_globs, source_matchers) =
     (should_match_all_file_globs, source_matchers)"
| "create_matchers ((k, v) # items) (should_match_all_file_globs, source_matchers) =
     (if is_match_all v
      then create_matchers items (insert k should_match_all_file_globs, source_matchers)
      else create_matchers items
             (should_match_all_file_globs, dict_set source_matchers k (CreateSourceMatcher v)))"

subsection \<open>The loop over the lines of the report\<close>

text \<open>
  \<open>path_match filename glob\<close> stands for \<open>Path(filename).match(glob)\<close> of the standard
  library; it is a parameter of the model. The loop state is the pair of \<open>file_result\<close>
  and \<open>result\<close>.
\<close>

type_synonym loop_state = "CoverageResult option \<times> (int \<times> int) option"

text \<open>The test of line 281 on \<open>file_data\<close>: both totals are keys of the object.\<close>

definition is_file_level :: "json_object \<Rightarrow> bool" where
  "is_file_level file_data =
     (total_covered file_data \<noteq> None \<and> total_uncovered file_data \<noteq> None)"

text \<open>The body of that \<open>if\<close>, up to its \<open>continue\<close>.\<close>

definition file_level_step ::
  "(string \<Rightarrow> string \<Rightarrow> bool) \<Rightarrow> string set \<Rightarrow> string \<Rightarrow> json_object
   \<Rightarrow> loop_state \<Rightarrow> loop_state" where
  "file_level_step path_match should_match_all_file_globs filename file_data st =
     (case st of (file_result, result) \<Rightarrow>
        if file_result = None
           \<and> (\<exists>should_match_all_file_glob \<in> should_match_all_file_globs.
                 path_match filename should_match_all_file_glob)
        then (Some \<lparr>covered = the (total_covered file_data),
                     uncovered = the (total_uncovered file_data)\<rparr>, result)
        else (file_result, result))"

text \<open>The list \<open>match_funcs\<close> of lines 296 to 300.\<close>

definition match_funcs_for ::
  "(string \<Rightarrow> string \<Rightarrow> bool) \<Rightarrow> (string \<times> (string \<Rightarrow> bool)) list \<Rightarrow> string
   \<Rightarrow> (string \<Rightarrow> bool) list" where
  "match_funcs_for path_match source_matchers filename =
     map snd (filter (\<lambda>(source_glob, match_func). path_match filename source_glob)
                source_matchers)"

text \<open>The addition of lines 315 to 321.\<close>

definition add_counts :: "(int \<times> int) option \<Rightarrow> int \<Rightarrow> int \<Rightarrow> (int \<times> int) option" where
  "add_counts result covered_count uncovered_count =
     (let r = (case result of None \<Rightarrow> (0, 0) | Some r' \<Rightarrow> r')
      in Some (fst r + covered_count, snd r + uncovered_count))"

text \<open>The rest of the loop body, from line 296.\<close>

definition method_level_step ::
  "(string \<Rightarrow> string \<Rightarrow> bool) \<Rightarrow> (string \<times> (string \<Rightarrow> bool)) list \<Rightarrow> string
   \<Rightarrow> report_line \<Rightarrow> loop_state \<Rightarrow> error + loop_state" where
  "method_level_step path_match source_matchers filename data st =
     (case st of (file_result, result) \<Rightarrow>
       (let match_funcs = match_funcs_for path_match source_matchers filename
        in (case method_key data of
              None \<Rightarrow> Inl AssertionError
            | Some method_data \<Rightarrow>
               (case name method_data of
                  None \<Rightarrow> Inl AssertionError
                | Some method_name \<Rightarrow>
                   (if match_funcs \<noteq> []
                       \<and> list_all (\<lambda>match_func. match_func method_name) match_funcs
                    then
                      (case total_covered method_data of
                         None \<Rightarrow> Inl AssertionError
                       | Some covered_count \<Rightarrow>
                          (case total_uncovered method_data of
                             None \<Rightarrow> Inl AssertionError
                           | Some uncovered_count \<Rightarrow>
                              Inr (file_result,
                                   add_counts result covered_count uncovered_count)))
                    else Inr (file_result, result))))))"

text \<open>One iteration of the loop over the lines.\<close>

definition process_line ::
  "(string \<Rightarrow> string \<Rightarrow> bool) \<Rightarrow> string set \<Rightarrow> (string \<times> (string \<Rightarrow> bool)) list
   \<Rightarrow> report_line \<Rightarrow> loop_state \<Rightarrow> error + loop_state" where
  "process_line path_match should_match_all_file_globs source_matchers data st =
     (case name (get_file data) of
        None \<Rightarrow> Inl AssertionError
      | Some filename \<Rightarrow>
         (let file_data = get_file data
          in if is_file_level file_data
             then Inr (file_level_step path_match should_match_all_file_globs
                         filename file_data st)
             else method_level_step path_match source_matchers filename data st))"

fun read_lines ::
  "(string \<Rightarrow> string \<Rightarrow> bool) \<Rightarrow> string set \<Rightarrow> (string \<times> (string \<Rightarrow> bool)) list
   \<Rightarrow> report_line list \<Rightarrow> loop_state \<Rightarrow> error + loop_state" where
  "read_lines path_match globs matchers [] st = Inr st"
| "read_lines path_match globs matchers (data # rest) st =
     (case process_line path_match globs matchers data st of
        Inl e \<Rightarrow> Inl e
      | Inr st' \<Rightarrow> read_lines path_match globs matchers rest st')"

text \<open>The statements after the loop.\<close>

definition select_result :: "loop_state \<Rightarrow> CoverageResult option" where
  "select_result st =
     (case st of (file_result, result) \<Rightarrow>
        (case result of
           Some r \<Rightarrow> Some \<lparr>covered = fst r, uncovered = snd r\<rparr>
         | None \<Rightarrow> (case file_result of Some fr \<Rightarrow> Some fr | None \<Rightarrow> None)))"

text \<open>
  \<open>ApplyFunc\<close>. The file at \<open>coverage_filename\<close> is the list of its parsed lines, which the
  function only reads.
\<close>

definition ApplyFunc ::
  "(string \<Rightarrow> string \<Rightarrow> bool) \<Rightarrow> report_line list
   \<Rightarrow> (string \<times> CodeCoverageContentFilter) list \<Rightarrow> error + CoverageResult option" where
  "ApplyFunc path_match coverage_file source_filters =
     (case create_matchers source_filters ({}, []) of
        (should_match_all_file_globs, source_matchers) \<Rightarrow>
          (case read_lines path_match should_match_all_file_globs source_matchers
                  coverage_file (None, None) of
             Inl e \<Rightarrow> Inl e
           | Inr st \<Rightarrow> Inr (select_result st)))"

subsection \<open>\<open>ExtractCoverageInfo\<close>\<close>

text \<open>
  The two keys the code reads from \<open>compiler_context\<close>; \<open>get\<close> with the default \<open>None\<close>
  makes an absent key \<open>None\<close>.
\<close>

record compiler_context =
  inputs :: "string list option"
  input :: "string option"

text \<open>Python's \<open>a or b\<close> on two lists: \<open>a\<close> when it is not empty.\<close>

definition py_or :: "'a list \<Rightarrow> 'a list \<Rightarrow> 'a list" where
  "py_or a b = (if a \<noteq> [] then a else b)"

definition source_filenames_of :: "compiler_context \<Rightarrow> string option list" where
  "source_filenames_of ctx =
     (case inputs ctx of
        Some source_filenames \<Rightarrow> map Some source_filenames
      | None \<Rightarrow> py_or [input ctx] [])"

text \<open>
  \<open>ApplyFilters\<close> is imported from another repository and is a parameter of the model: it
  receives the binary's filename, the source filenames and \<open>ApplyFunc\<close>, and returns an
  optional \<open>CoverageResult\<close> or raises.
\<close>

type_synonym apply_filters =
  "string \<Rightarrow> string option list
   \<Rightarrow> ((string \<times> CodeCoverageContentFilter) list \<Rightarrow> error + CoverageResult option)
   \<Rightarrow> error + CoverageResult option"

definition ExtractCoverageInfo ::
  "apply_filters \<Rightarrow> (string \<Rightarrow> string \<Rightarrow> bool) \<Rightarrow> compiler_context \<Rightarrow> report_line list
   \<Rightarrow> string \<Rightarrow> error + (int \<times> int)" where
  "ExtractCoverageInfo ApplyFilters path_match ctx coverage_file binary_filename =
     (case ApplyFilters binary_filename (source_filenames_of ctx)
             (ApplyFunc path_match coverage_file) of
        Inl e \<Rightarrow> Inl e
      | Inr None \<Rightarrow> Inr (0, 0)
      | Inr (Some result) \<Rightarrow> Inr (covered result, uncovered result))"

section \<open>Notions used in the statements\<close>

subsection \<open>The two collections built from a dictionary with distinct keys\<close>

text \<open>
  The globs whose filter passes the match-all test, and the matchers of the other items,
  in the order of the items.
\<close>

definition match_all_globs :: "(string \<times> CodeCoverageContentFilter) list \<Rightarrow> string set" where
  "match_all_globs source_filters =
     set (map fst (filter (\<lambda>(k, v). is_match_all v) source_filters))"

definition matchers_of ::
  "(string \<times> CodeCoverageContentFilter) list \<Rightarrow> (string \<times> (string \<Rightarrow> bool)) list" where
  "matchers_of source_filters =
     map (\<lambda>(k, v). (k, CreateSourceMatcher v))
       (filter (\<lambda>(k, v). \<not> is_match_all v) source_filters)"

text \<open>
  The items outside the match-all set whose glob matches a filename, and the condition
  under which the loop adds the counts of a method of that file: there is such an item and
  the filter of every such item accepts the method name.
\<close>

definition matched_filters ::
  "(string \<Rightarrow> string \<Rightarrow> bool) \<Rightarrow> (string \<times> CodeCoverageContentFilter) list \<Rightarrow> string
   \<Rightarrow> (string \<times> CodeCoverageContentFilter) list" where
  "matched_filters path_match source_filters filename =
     filter (\<lambda>(k, v). \<not> is_match_all v \<and> path_match filename k) source_filters"

definition accepts_method ::
  "(string \<Rightarrow> string \<Rightarrow> bool) \<Rightarrow> (string \<times> CodeCoverageContentFilter) list \<Rightarrow> string
   \<Rightarrow> string \<Rightarrow> bool" where
  "accepts_method path_match source_filters filename method_name =
     (matched_filters path_match source_filters filename \<noteq> []
      \<and> list_all (\<lambda>(k, v). CreateSourceMatcher v method_name)
           (matched_filters path_match source_filters filename))"

subsection \<open>Lines of a report\<close>

text \<open>
  A line passes the filters when it has a filename, is not file-level, has a method name,
  and \<open>accepts_method\<close> holds of the two names.
\<close>

definition line_accepted ::
  "(string \<Rightarrow> string \<Rightarrow> bool) \<Rightarrow> (string \<times> CodeCoverageContentFilter) list \<Rightarrow> report_line
   \<Rightarrow> bool" where
  "line_accepted path_match source_filters data =
     (case name (get_file data) of
        None \<Rightarrow> False
      | Some filename \<Rightarrow>
          \<not> is_file_level (get_file data)
          \<and> (case method_key data of
                None \<Rightarrow> False
              | Some method_data \<Rightarrow>
                  (case name method_data of
                     None \<Rightarrow> False
                   | Some method_name \<Rightarrow>
                       accepts_method path_match source_filters filename method_name)))"

text \<open>
  A line can set the file-level result when it has a filename, is file-level, and a glob of
  the match-all set matches the filename.
\<close>

definition line_captured ::
  "(string \<Rightarrow> string \<Rightarrow> bool) \<Rightarrow> (string \<times> CodeCoverageContentFilter) list \<Rightarrow> report_line
   \<Rightarrow> bool" where
  "line_captured path_match source_filters data =
     (case name (get_file data) of
        None \<Rightarrow> False
      | Some filename \<Rightarrow>
          is_file_level (get_file data)
          \<and> (\<exists>glob \<in> match_all_globs source_filters. path_match filename glob))"

text \<open>
  A line lacks a field that the loop reads: the filename; or, on a line that is not
  file-level, the \<open>method\<close> object or the method name; or, on a line that passes the
  filters, one of the two method counts.
\<close>

definition line_fails ::
  "(string \<Rightarrow> string \<Rightarrow> bool) \<Rightarrow> (string \<times> CodeCoverageContentFilter) list \<Rightarrow> report_line
   \<Rightarrow> bool" where
  "line_fails path_match source_filters data =
     (name (get_file data) = None
      \<or> (\<not> is_file_level (get_file data)
          \<and> (case method_key data of
                None \<Rightarrow> True
              | Some method_data \<Rightarrow>
                  name method_data = None
                  \<or> (line_accepted path_match source_filters data
                      \<and> (total_covered method_data = None
                          \<or> total_uncovered method_data = None)))))"

text \<open>
  The two counts under \<open>method\<close> (zeros stand in where one is absent, which a run without
  failure never meets on a line that passes the filters), their sums over a list of
  lines, and the totals under \<open>file\<close> of a file-level line.
\<close>

definition method_counts :: "report_line \<Rightarrow> int \<times> int" where
  "method_counts data =
     (case method_key data of
        None \<Rightarrow> (0, 0)
      | Some method_data \<Rightarrow>
          (case (total_covered method_data, total_uncovered method_data) of
             (Some c, Some u) \<Rightarrow> (c, u)
           | _ \<Rightarrow> (0, 0)))"

definition sum_counts :: "report_line list \<Rightarrow> int \<times> int" where
  "sum_counts lines =
     (sum_list (map (\<lambda>data. fst (method_counts data)) lines),
      sum_list (map (\<lambda>data. snd (method_counts data)) lines))"

definition file_totals :: "report_line \<Rightarrow> CoverageResult" where
  "file_totals data =
     \<lparr>covered = the (total_covered (get_file data)),
      uncovered = the (total_uncovered (get_file data))\<rparr>"

text \<open>
  The classification as the specification words it, to compare with \<open>is_file_level\<close>: both
  totals under \<open>file\<close> and no \<open>method\<close> key.
\<close>

definition claimed_file_level :: "report_line \<Rightarrow> bool" where
  "claimed_file_level data =
     (is_file_level (get_file data) \<and> method_key data = None)"

subsection \<open>Inputs of the closed examples\<close>

text \<open>
  A stand-in for \<open>Path(filename).match(glob)\<close>. On the filenames and globs of the examples
  (one lower-case component; the glob is the lone wildcard or has no wildcard character)
  the library function gives this value.
\<close>

definition literal_match :: "string \<Rightarrow> string \<Rightarrow> bool" where
  "literal_match filename glob = (glob = ''*'' \<or> filename = glob)"

text \<open>Report lines of the two shapes, and a line with both the file totals and a method.\<close>

definition method_line :: "string \<Rightarrow> string \<Rightarrow> int option \<Rightarrow> int option \<Rightarrow> report_line" where
  "method_line filename method_name covered_count uncovered_count =
     \<lparr>file_key = Some \<lparr>name = Some filename, total_covered = None, total_uncovered = None\<rparr>,
      method_key = Some \<lparr>name = Some method_name, total_covered = covered_count,
                         total_uncovered = uncovered_count\<rparr>\<rparr>"

definition file_line :: "string \<Rightarrow> int \<Rightarrow> int \<Rightarrow> report_line" where
  "file_line filename covered_count uncovered_count =
     \<lparr>file_key = Some \<lparr>name = Some filename, total_covered = Some covered_count,
                       total_uncovered = Some uncovered_count\<rparr>,
      method_key = None\<rparr>"

definition both_line :: report_line where
  "both_line =
     \<lparr>file_key = Some \<lparr>name = Some ''a.cpp'', total_covered = Some 100,
                       total_uncovered = Some 5\<rparr>,
      method_key = Some \<lparr>name = Some ''f'', total_covered = Some 3,
                         total_uncovered = Some 1\<rparr>\<rparr>"

text \<open>Filters.\<close>

definition accept_any :: CodeCoverageContentFilter where
  "accept_any = \<lparr>filter_includes = None, filter_excludes = None\<rparr>"

definition only_ns :: CodeCoverageContentFilter where
  "only_ns = \<lparr>filter_includes = Some [''ns::*''], filter_excludes = None\<rparr>"

definition only_other :: CodeCoverageContentFilter where
  "only_other = \<lparr>filter_includes = Some [''other::*''], filter_excludes = None\<rparr>"

definition every_file :: CodeCoverageContentFilter where
  "every_file = \<lparr>filter_includes = Some [''*''], filter_excludes = None\<rparr>"

definition every_file_empty_excludes :: CodeCoverageContentFilter where
  "every_file_empty_excludes = \<lparr>filter_includes = Some [''*''], filter_excludes = Some []\<rparr>"

section \<open>The glob matcher\<close>

text \<open>The early \<open>return True\<close> is only reached at a last glob part \<open>*\<close>.\<close>

lemma matcher_loop_ReturnTrue_last:
  "matcher_loop glob_parts value_parts gi vi = ReturnTrue \<Longrightarrow> last glob_parts = ''*''"
proof (induction glob_parts value_parts gi vi rule: matcher_loop.induct)
  case (1 gp vp gi vi)
  show ?case
  proof (cases "gi < length gp \<and> vi < length vp")
    case False
    with "1.prems" show ?thesis by (simp add: matcher_loop.simps)
  next
    case inside: True
    then have nonempty: "gp \<noteq> []" by auto
    show ?thesis
    proof (cases "gp ! gi = ''*{1}''")
      case True
      with inside "1.prems" "1.IH"(1) show ?thesis
        by (simp add: matcher_loop.simps [of gp vp gi vi])
    next
      case not_one: False
      show ?thesis
      proof (cases "gp ! gi = ''*''")
        case star: True
        show ?thesis
        proof (cases "gi + 1 = length gp")
          case True
          then have "gi = length gp - 1" by simp
          with star nonempty show ?thesis by (simp add: last_conv_nth)
        next
          case False
          with inside not_one star "1.prems" "1.IH"(2) show ?thesis
            by (simp add: matcher_loop.simps [of gp vp gi vi])
        qed
      next
        case not_star: False
        show ?thesis
        proof (cases "gp ! gi = vp ! vi")
          case True
          with inside not_one not_star "1.prems" "1.IH"(3) show ?thesis
            by (simp add: matcher_loop.simps [of gp vp gi vi])
        next
          case False
          with inside not_one not_star "1.prems" show ?thesis
            by (simp add: matcher_loop.simps [of gp vp gi vi])
        qed
      qed
    qed
  qed
qed

text \<open>
  Claim C6. The five example matches have the stated values; the fourth is decided by the
  early return at the trailing \<open>*\<close>. Whenever a match succeeds, either the loop was left
  with both cursors at the ends of their lists, or it was left through that early return,
  and then the last glob part is \<open>*\<close>.
\<close>

theorem CreateItemMatcher_examples:
  "CreateItemMatcher ''a::*::c'' ''a::b::c''
   \<and> CreateItemMatcher ''a::*::c'' ''a::b::b::c''
   \<and> \<not> CreateItemMatcher ''a::*{1}::c'' ''a::b::b::c''
   \<and> CreateItemMatcher ''a::*'' ''a::b::c''
   \<and> matcher_loop (str_split ''a::*'') (str_split ''a::b::c'') 0 0 = ReturnTrue
   \<and> \<not> CreateItemMatcher ''a::b'' ''a::c''
   \<and> (\<forall>glob_value value.
         CreateItemMatcher glob_value value \<longrightarrow>
           matcher_loop (str_split glob_value) (str_split value) 0 0
             = AfterLoop (length (str_split glob_value)) (length (str_split value))
           \<or> (matcher_loop (str_split glob_value) (str_split value) 0 0 = ReturnTrue
               \<and> last (str_split glob_value) = ''*''))"
proof -
  have e1: "CreateItemMatcher ''a::*::c'' ''a::b::c''" by code_simp
  have e2: "CreateItemMatcher ''a::*::c'' ''a::b::b::c''" by code_simp
  have e3: "\<not> CreateItemMatcher ''a::*{1}::c'' ''a::b::b::c''" by code_simp
  have e4: "CreateItemMatcher ''a::*'' ''a::b::c''" by code_simp
  have e4': "matcher_loop (str_split ''a::*'') (str_split ''a::b::c'') 0 0 = ReturnTrue"
    by code_simp
  have e5: "\<not> CreateItemMatcher ''a::b'' ''a::c''" by code_simp
  have general: "matcher_loop (str_split g) (str_split v) 0 0
             = AfterLoop (length (str_split g)) (length (str_split v))
           \<or> (matcher_loop (str_split g) (str_split v) 0 0 = ReturnTrue
               \<and> last (str_split g) = ''*'')" if m: "CreateItemMatcher g v" for g v
  proof (cases "matcher_loop (str_split g) (str_split v) 0 0")
    case ReturnTrue
    then show ?thesis using matcher_loop_ReturnTrue_last by blast
  next
    case (AfterLoop i j)
    with m show ?thesis by (simp add: CreateItemMatcher_def)
  qed
  from e1 e2 e3 e4 e4' e5 general show ?thesis by blast
qed

theorem CreateItemMatcher_examples_witness:
  "CreateItemMatcher ''a::b'' ''a::b''
   \<and> matcher_loop (str_split ''a::b'') (str_split ''a::b'') 0 0 = AfterLoop 2 2"
proof -
  have m: "CreateItemMatcher ''a::b'' ''a::b''" by code_simp
  have l: "length (str_split ''a::b'') = 2" by code_simp
  have n: "last (str_split ''a::b'') \<noteq> ''*''" by code_simp
  from CreateItemMatcher_examples m
  have "matcher_loop (str_split ''a::b'') (str_split ''a::b'') 0 0
             = AfterLoop (length (str_split ''a::b'')) (length (str_split ''a::b''))
           \<or> (matcher_loop (str_split ''a::b'') (str_split ''a::b'') 0 0 = ReturnTrue
               \<and> last (str_split ''a::b'') = ''*'')" by blast
  with m l n show ?thesis by simp
qed

section \<open>The source filter\<close>

text \<open>
  Claim C7. The source filter rejects a value that an exclude glob matches; otherwise it
  accepts the value when there are no include globs or an include glob matches it, and
  rejects it when there are include globs and none matches. The filter with includes
  \<open>pkg::*\<close> and excludes \<open>pkg::internal::*\<close> accepts \<open>pkg::foo::bar\<close> and rejects
  \<open>pkg::internal::x\<close>.
\<close>

theorem CreateSourceMatcher_policy:
  "CreateSourceMatcher f value =
     (if \<exists>e \<in> set (or_empty (filter_excludes f)). CreateItemMatcher e value then False
      else or_empty (filter_includes f) = []
           \<or> (\<exists>i \<in> set (or_empty (filter_includes f)). CreateItemMatcher i value))
   \<and> CreateSourceMatcher
        \<lparr>filter_includes = Some [''pkg::*''], filter_excludes = Some [''pkg::internal::*'']\<rparr>
        ''pkg::foo::bar''
   \<and> \<not> CreateSourceMatcher
          \<lparr>filter_includes = Some [''pkg::*''], filter_excludes = Some [''pkg::internal::*'']\<rparr>
          ''pkg::internal::x''"
proof -
  have policy: "CreateSourceMatcher f value =
     (if \<exists>e \<in> set (or_empty (filter_excludes f)). CreateItemMatcher e value then False
      else or_empty (filter_includes f) = []
           \<or> (\<exists>i \<in> set (or_empty (filter_includes f)). CreateItemMatcher i value))"
    by (auto simp: CreateSourceMatcher_def Let_def list_ex_iff)
  have accepts: "CreateSourceMatcher
     \<lparr>filter_includes = Some [''pkg::*''], filter_excludes = Some [''pkg::internal::*'']\<rparr>
     ''pkg::foo::bar''" by code_simp
  have rejects: "\<not> CreateSourceMatcher
     \<lparr>filter_includes = Some [''pkg::*''], filter_excludes = Some [''pkg::internal::*'']\<rparr>
     ''pkg::internal::x''" by code_simp
  from policy accepts rejects show ?thesis by blast
qed

theorem CreateSourceMatcher_policy_witness:
  "CreateItemMatcher ''pkg::internal::*'' ''pkg::internal::y''
   \<and> \<not> CreateSourceMatcher
          \<lparr>filter_includes = Some [''pkg::*''], filter_excludes = Some [''pkg::internal::*'']\<rparr>
          ''pkg::internal::y''"
proof -
  have m: "CreateItemMatcher ''pkg::internal::*'' ''pkg::internal::y''" by code_simp
  with CreateSourceMatcher_policy
         [of "\<lparr>filter_includes = Some [''pkg::*''],
               filter_excludes = Some [''pkg::internal::*'']\<rparr>" "''pkg::internal::y''"]
  show ?thesis by (simp add: or_empty_def)
qed

section \<open>The Extract phase\<close>

text \<open>
  Claim C10. When \<open>compiler_context\<close> has no \<open>inputs\<close>, the source filenames are the
  one-element list holding the value of \<open>input\<close>, so the list \<open>[None]\<close> when \<open>input\<close> is
  absent too: the list on the left of \<open>or\<close> has one element and is never replaced by the
  empty list on its right.
\<close>

theorem source_filenames_of_fallback:
  "(inputs ctx = None \<longrightarrow> source_filenames_of ctx = [input ctx])
   \<and> (inputs ctx = None \<and> input ctx = None \<longrightarrow> source_filenames_of ctx = [None])
   \<and> (\<forall>x :: string option. py_or [x] [] = [x])"
  by (simp add: source_filenames_of_def py_or_def)

theorem source_filenames_of_fallback_witness:
  "inputs \<lparr>inputs = None, input = None\<rparr> = None
   \<and> input \<lparr>inputs = None, input = None\<rparr> = None
   \<and> source_filenames_of \<lparr>inputs = None, input = None\<rparr> = [None]"
  using source_filenames_of_fallback [of "\<lparr>inputs = None, input = None\<rparr>"] by simp

text \<open>
  Claim C8. When the hand-off to the aggregator returns no result, the Extract phase
  returns the pair of zeros; when it returns a result, the Extract phase returns the
  covered and uncovered counts of that result.
\<close>

theorem ExtractCoverageInfo_result:
  "(ApplyFilters binary_filename (source_filenames_of ctx) (ApplyFunc path_match coverage_file)
      = Inr None
    \<longrightarrow> ExtractCoverageInfo ApplyFilters path_match ctx coverage_file binary_filename
          = Inr (0, 0))
   \<and> (\<forall>result.
        ApplyFilters binary_filename (source_filenames_of ctx)
          (ApplyFunc path_match coverage_file) = Inr (Some result)
        \<longrightarrow> ExtractCoverageInfo ApplyFilters path_match ctx coverage_file binary_filename
              = Inr (covered result, uncovered result))"
  by (simp add: ExtractCoverageInfo_def)

theorem ExtractCoverageInfo_result_witness:
  "ApplyFunc literal_match [method_line ''a.cpp'' ''ns::f'' (Some 3) (Some 1)]
     [(''b.cpp'', \<lparr>filter_includes = None, filter_excludes = None\<rparr>)] = Inr None
   \<and> ExtractCoverageInfo
        (\<lambda>binary_filename source_filenames apply_func.
           apply_func [(''b.cpp'', \<lparr>filter_includes = None, filter_excludes = None\<rparr>)])
        literal_match \<lparr>inputs = None, input = Some ''a.cpp''\<rparr>
        [method_line ''a.cpp'' ''ns::f'' (Some 3) (Some 1)] ''a.out'' = Inr (0, 0)
   \<and> ApplyFunc literal_match [method_line ''a.cpp'' ''ns::f'' (Some 3) (Some 1)]
       [(''a.cpp'', \<lparr>filter_includes = None, filter_excludes = None\<rparr>)]
       = Inr (Some \<lparr>covered = 3, uncovered = 1\<rparr>)
   \<and> ExtractCoverageInfo
        (\<lambda>binary_filename source_filenames apply_func.
           apply_func [(''a.cpp'', \<lparr>filter_includes = None, filter_excludes = None\<rparr>)])
        literal_match \<lparr>inputs = None, input = Some ''a.cpp''\<rparr>
        [method_line ''a.cpp'' ''ns::f'' (Some 3) (Some 1)] ''a.out'' = Inr (3, 1)"
proof -
  have none: "ApplyFunc literal_match [method_line ''a.cpp'' ''ns::f'' (Some 3) (Some 1)]
     [(''b.cpp'', \<lparr>filter_includes = None, filter_excludes = None\<rparr>)] = Inr None"
    by code_simp
  have some: "ApplyFunc literal_match [method_line ''a.cpp'' ''ns::f'' (Some 3) (Some 1)]
       [(''a.cpp'', \<lparr>filter_includes = None, filter_excludes = None\<rparr>)]
       = Inr (Some \<lparr>covered = 3, uncovered = 1\<rparr>)"
    by code_simp
  from none some
    ExtractCoverageInfo_result
      [of "\<lambda>binary_filename source_filenames apply_func.
             apply_func [(''b.cpp'', \<lparr>filter_includes = None, filter_excludes = None\<rparr>)]"
          "''a.out''" "\<lparr>inputs = None, input = Some ''a.cpp''\<rparr>" literal_match
          "[method_line ''a.cpp'' ''ns::f'' (Some 3) (Some 1)]"]
    ExtractCoverageInfo_result
      [of "\<lambda>binary_filename source_filenames apply_func.
             apply_func [(''a.cpp'', \<lparr>filter_includes = None, filter_excludes = None\<rparr>)]"
          "''a.out''" "\<lparr>inputs = None, input = Some ''a.cpp''\<rparr>" literal_match
          "[method_line ''a.cpp'' ''ns::f'' (Some 3) (Some 1)]"]
  show ?thesis by simp
qed

section \<open>The aggregator\<close>

lemma dict_set_fresh: "k \<notin> fst ` set d \<Longrightarrow> dict_set d k v = d @ [(k, v)]"
  by (induction d k v rule: dict_set.induct) auto

lemma create_matchers_append:
  "distinct (map fst items) \<Longrightarrow> fst ` set items \<inter> fst ` set sm = {} \<Longrightarrow>
   create_matchers items (globs, sm) =
     (globs \<union> match_all_globs items,
      sm @ map (\<lambda>(k, v). (k, CreateSourceMatcher v))
             (filter (\<lambda>(k, v). \<not> is_match_all v) items))"
proof (induction items arbitrary: globs sm)
  case Nil
  then show ?case by (simp add: match_all_globs_def)
next
  case (Cons item items)
  obtain k v where item: "item = (k, v)" by (cases item)
  show ?case
  proof (cases "is_match_all v")
    case True
    have "fst ` set items \<inter> fst ` set sm = {}" using Cons.prems(2) by auto
    moreover have "distinct (map fst items)" using Cons.prems(1) by simp
    ultimately show ?thesis using Cons.IH [of sm "insert k globs"] True item
      by (simp add: match_all_globs_def)
  next
    case False
    have fresh: "k \<notin> fst ` set sm" using Cons.prems(2) item by auto
    then have upd: "dict_set sm k (CreateSourceMatcher v) = sm @ [(k, CreateSourceMatcher v)]"
      by (rule dict_set_fresh)
    have d: "distinct (map fst items)" using Cons.prems(1) by simp
    have "k \<notin> fst ` set items" using Cons.prems(1) item by (simp add: image_iff) 
    then have disj: "fst ` set items \<inter> fst ` set (sm @ [(k, CreateSourceMatcher v)]) = {}"
      using Cons.prems(2) by auto
    show ?thesis using Cons.IH [OF d disj, of globs] False item upd
      by (simp add: match_all_globs_def)
  qed
qed

lemma create_matchers_distinct:
  "distinct (map fst source_filters) \<Longrightarrow>
   create_matchers source_filters ({}, []) =
     (match_all_globs source_filters,
      map (\<lambda>(k, v). (k, CreateSourceMatcher v))
        (filter (\<lambda>(k, v). \<not> is_match_all v) source_filters))"
  using create_matchers_append [of source_filters "[]" "{}"] by simp

lemma match_funcs_for_filters:
  "match_funcs_for path_match
     (map (\<lambda>(k, v). (k, CreateSourceMatcher v))
        (filter (\<lambda>(k, v). \<not> is_match_all v) source_filters)) filename
   = map (\<lambda>(k, v). CreateSourceMatcher v) (matched_filters path_match source_filters filename)"
  by (induction source_filters) (auto simp: match_funcs_for_def matched_filters_def)

lemma match_funcs_accepts:
  "(match_funcs_for path_match
     (map (\<lambda>(k, v). (k, CreateSourceMatcher v))
        (filter (\<lambda>(k, v). \<not> is_match_all v) source_filters)) filename \<noteq> []
    \<and> list_all (\<lambda>match_func. match_func method_name)
         (match_funcs_for path_match
            (map (\<lambda>(k, v). (k, CreateSourceMatcher v))
               (filter (\<lambda>(k, v). \<not> is_match_all v) source_filters)) filename))
   = accepts_method path_match source_filters filename method_name"
  unfolding match_funcs_for_filters accepts_method_def
  by (auto simp: list_all_iff)

lemma ApplyFunc_distinct:
  "distinct (map fst source_filters) \<Longrightarrow>
   ApplyFunc path_match coverage_file source_filters =
     (case read_lines path_match (match_all_globs source_filters) (matchers_of source_filters)
             coverage_file (None, None) of
        Inl e \<Rightarrow> Inl e
      | Inr st \<Rightarrow> Inr (select_result st))"
  by (simp add: ApplyFunc_def create_matchers_distinct matchers_of_def)

lemma matchers_of_accepts:
  "(match_funcs_for path_match (matchers_of source_filters) filename \<noteq> []
    \<and> list_all (\<lambda>match_func. match_func method_name)
         (match_funcs_for path_match (matchers_of source_filters) filename))
   = accepts_method path_match source_filters filename method_name"
  unfolding matchers_of_def by (rule match_funcs_accepts)

lemma process_line_fails_iff:
  "(process_line path_match (match_all_globs source_filters) (matchers_of source_filters)
      data st = Inl AssertionError)
   = line_fails path_match source_filters data"
  by (cases st)
     (auto simp: process_line_def method_level_step_def line_fails_def line_accepted_def
        Let_def matchers_of_accepts split: option.splits)

lemma process_line_Inr:
  assumes "process_line path_match (match_all_globs source_filters)
             (matchers_of source_filters) data (file_result, result) = Inr st'"
  shows "st' =
     (if file_result = None \<and> line_captured path_match source_filters data
      then Some (file_totals data) else file_result,
      if line_accepted path_match source_filters data
      then add_counts result (fst (method_counts data)) (snd (method_counts data))
      else result)"
proof (cases "name (get_file data)")
  case None
  with assms show ?thesis by (simp add: process_line_def)
next
  case (Some filename)
  show ?thesis
  proof (cases "is_file_level (get_file data)")
    case True
    with Some assms show ?thesis
      by (auto simp: process_line_def file_level_step_def line_captured_def
            line_accepted_def file_totals_def Let_def)
  next
    case False
    with Some assms show ?thesis
      by (auto simp: process_line_def method_level_step_def line_captured_def
            line_accepted_def method_counts_def Let_def matchers_of_accepts
          split: option.splits if_splits)
  qed
qed

lemma read_lines_fails_iff:
  "(read_lines path_match (match_all_globs source_filters) (matchers_of source_filters)
      coverage_file st = Inl AssertionError)
   = (\<exists>data \<in> set coverage_file. line_fails path_match source_filters data)"
proof (induction coverage_file arbitrary: st)
  case Nil
  show ?case by simp
next
  case (Cons data rest)
  show ?case
  proof (cases "process_line path_match (match_all_globs source_filters)
                  (matchers_of source_filters) data st")
    case (Inl e)
    then have "line_fails path_match source_filters data"
      using process_line_fails_iff [of path_match source_filters data st]
      by (cases e) simp
    with Inl show ?thesis by (cases e) simp
  next
    case (Inr st')
    then have "\<not> line_fails path_match source_filters data"
      using process_line_fails_iff [of path_match source_filters data st] by simp
    with Inr Cons.IH [of st'] show ?thesis by simp
  qed
qed

lemma read_lines_Inr:
  assumes "read_lines path_match (match_all_globs source_filters)
             (matchers_of source_filters) coverage_file (file_result, result)
           = Inr (file_result', result')"
  shows "file_result' =
           (case file_result of
              Some fr \<Rightarrow> Some fr
            | None \<Rightarrow>
                (case filter (line_captured path_match source_filters) coverage_file of
                   [] \<Rightarrow> None
                 | data # _ \<Rightarrow> Some (file_totals data)))
         \<and> result' =
           (if filter (line_accepted path_match source_filters) coverage_file = []
            then result
            else Some (fst (case result of None \<Rightarrow> (0, 0) | Some r \<Rightarrow> r)
                         + fst (sum_counts (filter (line_accepted path_match source_filters)
                                              coverage_file)),
                       snd (case result of None \<Rightarrow> (0, 0) | Some r \<Rightarrow> r)
                         + snd (sum_counts (filter (line_accepted path_match source_filters)
                                              coverage_file))))"
  using assms
proof (induction coverage_file arbitrary: file_result result)
  case Nil
  then show ?case by (simp split: option.splits)
next
  case (Cons data rest)
  from Cons.prems obtain fr1 r1 where
    step: "process_line path_match (match_all_globs source_filters)
             (matchers_of source_filters) data (file_result, result) = Inr (fr1, r1)"
    and rest: "read_lines path_match (match_all_globs source_filters)
             (matchers_of source_filters) rest (fr1, r1) = Inr (file_result', result')"
    by (auto split: sum.splits)
  note st = process_line_Inr [OF step]
  note ih = Cons.IH [OF rest]
  from st have fr1: "fr1 = (if file_result = None \<and> line_captured path_match source_filters data
      then Some (file_totals data) else file_result)"
    and r1: "r1 = (if line_accepted path_match source_filters data
      then add_counts result (fst (method_counts data)) (snd (method_counts data))
      else result)" by simp_all
  have a: "file_result' =
           (case file_result of
              Some fr \<Rightarrow> Some fr
            | None \<Rightarrow>
                (case filter (line_captured path_match source_filters) (data # rest) of
                   [] \<Rightarrow> None
                 | data # _ \<Rightarrow> Some (file_totals data)))"
    using ih fr1 by (simp split: option.splits)
  have b: "result' =
           (if filter (line_accepted path_match source_filters) (data # rest) = []
            then result
            else Some (fst (case result of None \<Rightarrow> (0, 0) | Some r \<Rightarrow> r)
                         + fst (sum_counts (filter (line_accepted path_match source_filters)
                                              (data # rest))),
                       snd (case result of None \<Rightarrow> (0, 0) | Some r \<Rightarrow> r)
                         + snd (sum_counts (filter (line_accepted path_match source_filters)
                                              (data # rest)))))"
    using ih r1 by (simp add: add_counts_def sum_counts_def Let_def split: option.splits)
  from a b show ?case by blast
qed

lemma accepts_method_iff:
  "accepts_method path_match source_filters filename method_name =
     ((\<exists>(k, v) \<in> set source_filters. \<not> is_match_all v \<and> path_match filename k)
      \<and> (\<forall>(k, v) \<in> set source_filters.
            \<not> is_match_all v \<and> path_match filename k \<longrightarrow> CreateSourceMatcher v method_name))"
  by (auto simp: accepts_method_def matched_filters_def list_all_iff filter_empty_conv)

text \<open>
  Claim C1, as amended. Take a line that is not file-level and has its filename, its method
  name and both method counts. Its counts are added to the running total exactly when at
  least one configured glob outside the match-all set matches the filename and every
  filter whose glob matches accepts the method name; otherwise the loop state is unchanged.
  One accepting filter is not enough when another matched filter rejects.
\<close>

theorem method_counts_added_iff:
  assumes "distinct (map fst source_filters)"
    and "create_matchers source_filters ({}, []) = (globs, source_matchers)"
    and "name (get_file data) = Some filename"
    and "\<not> is_file_level (get_file data)"
    and "method_key data = Some method_data"
    and "name method_data = Some method_name"
    and "total_covered method_data = Some c"
    and "total_uncovered method_data = Some u"
  shows "process_line path_match globs source_matchers data (file_result, result) =
     Inr (file_result,
          if (\<exists>(k, v) \<in> set source_filters. \<not> is_match_all v \<and> path_match filename k)
             \<and> (\<forall>(k, v) \<in> set source_filters.
                   \<not> is_match_all v \<and> path_match filename k
                   \<longrightarrow> CreateSourceMatcher v method_name)
          then add_counts result c u
          else result)"
proof -
  from assms(1,2) have sm: "source_matchers = matchers_of source_filters"
    by (simp add: create_matchers_distinct matchers_of_def)
  show ?thesis
    unfolding accepts_method_iff [symmetric] sm
    using assms(3-8)
    by (simp add: process_line_def method_level_step_def Let_def matchers_of_accepts)
qed

theorem method_counts_added_iff_witness:
  "distinct (map fst [(''a.cpp'', only_ns), (''*'', accept_any)])
   \<and> create_matchers [(''a.cpp'', only_ns), (''*'', accept_any)] ({}, [])
       = ({}, [(''a.cpp'', CreateSourceMatcher only_ns), (''*'', CreateSourceMatcher accept_any)])
   \<and> name (get_file (method_line ''a.cpp'' ''ns::f'' (Some 3) (Some 1))) = Some ''a.cpp''
   \<and> \<not> is_file_level (get_file (method_line ''a.cpp'' ''ns::f'' (Some 3) (Some 1)))
   \<and> process_line literal_match {}
        [(''a.cpp'', CreateSourceMatcher only_ns), (''*'', CreateSourceMatcher accept_any)]
        (method_line ''a.cpp'' ''ns::f'' (Some 3) (Some 1)) (None, Some (10, 2))
       = Inr (None, Some (13, 3))"
proof -
  have d: "distinct (map fst [(''a.cpp'', only_ns), (''*'', accept_any)])" by simp
  have cm: "create_matchers [(''a.cpp'', only_ns), (''*'', accept_any)] ({}, [])
       = ({}, [(''a.cpp'', CreateSourceMatcher only_ns), (''*'', CreateSourceMatcher accept_any)])"
    by (simp add: is_match_all_def only_ns_def accept_any_def or_empty_def)
  have n: "name (get_file (method_line ''a.cpp'' ''ns::f'' (Some 3) (Some 1))) = Some ''a.cpp''"
    by (simp add: method_line_def get_file_def)
  have nf: "\<not> is_file_level (get_file (method_line ''a.cpp'' ''ns::f'' (Some 3) (Some 1)))"
    by (simp add: method_line_def get_file_def is_file_level_def)
  have mk: "method_key (method_line ''a.cpp'' ''ns::f'' (Some 3) (Some 1))
      = Some \<lparr>name = Some ''ns::f'', total_covered = Some 3, total_uncovered = Some 1\<rparr>"
    by (simp add: method_line_def)
  have a1: "CreateSourceMatcher only_ns ''ns::f''" by code_simp
  have a2: "CreateSourceMatcher accept_any ''ns::f''" by code_simp
  have m1: "\<not> is_match_all only_ns" by code_simp
  have m2: "\<not> is_match_all accept_any" by code_simp
  have p1: "literal_match ''a.cpp'' ''a.cpp''" by (simp add: literal_match_def)
  have p2: "literal_match ''a.cpp'' ''*''" by (simp add: literal_match_def)
  have ac: "add_counts (Some (10, 2)) 3 1 = Some (13, 3)" by (simp add: add_counts_def)
  from method_counts_added_iff [OF d cm n nf mk, of "''ns::f''" 3 1 literal_match None "Some (10, 2)"]
  have "process_line literal_match {}
        [(''a.cpp'', CreateSourceMatcher only_ns), (''*'', CreateSourceMatcher accept_any)]
        (method_line ''a.cpp'' ''ns::f'' (Some 3) (Some 1)) (None, Some (10, 2))
       = Inr (None, Some (13, 3))"
    using a1 a2 m1 m2 p1 p2 ac by simp
  with d cm n nf show ?thesis by blast
qed

theorem at_least_one_accepts_counterexample:
  "literal_match ''a.cpp'' ''a.cpp''
   \<and> \<not> is_match_all only_ns
   \<and> CreateSourceMatcher only_ns ''ns::f''
   \<and> literal_match ''a.cpp'' ''*''
   \<and> \<not> is_match_all only_other
   \<and> \<not> CreateSourceMatcher only_other ''ns::f''
   \<and> ApplyFunc literal_match [method_line ''a.cpp'' ''ns::f'' (Some 3) (Some 1)]
        [(''a.cpp'', only_ns), (''*'', only_other)] = Inr None"
  by code_simp

text \<open>
  Claim C2, as amended. A line with a filename is handled as file-level exactly when both
  totals are present under its \<open>file\<close> key, whether or not it has a \<open>method\<close> key; such
  a line never changes the method-level sum, and its \<open>method\<close> key is not read. Every
  other line with a filename is handled as method-level.
\<close>

theorem file_level_classification:
  assumes "name (get_file data) = Some filename"
  shows "process_line path_match globs source_matchers data (file_result, result) =
           (if \<exists>c u. total_covered (get_file data) = Some c
                     \<and> total_uncovered (get_file data) = Some u
            then Inr (file_level_step path_match globs filename (get_file data)
                        (file_result, result))
            else method_level_step path_match source_matchers filename data
                   (file_result, result))
         \<and> snd (file_level_step path_match globs filename (get_file data)
                  (file_result, result)) = result
         \<and> (is_file_level (get_file data) \<longrightarrow>
              process_line path_match globs source_matchers (data\<lparr>method_key := m\<rparr>)
                (file_result, result)
              = process_line path_match globs source_matchers data (file_result, result))"
  using assms
  by (auto simp: process_line_def is_file_level_def file_level_step_def get_file_def Let_def)

theorem file_level_classification_witness:
  "name (get_file both_line) = Some ''a.cpp''
   \<and> is_file_level (get_file both_line)
   \<and> process_line literal_match {''*''} [] both_line (None, None)
       = Inr (Some \<lparr>covered = 100, uncovered = 5\<rparr>, None)
   \<and> process_line literal_match {''*''} [] (both_line\<lparr>method_key := None\<rparr>) (None, None)
       = Inr (Some \<lparr>covered = 100, uncovered = 5\<rparr>, None)"
proof -
  have n: "name (get_file both_line) = Some ''a.cpp''"
    by (simp add: both_line_def get_file_def)
  have f: "is_file_level (get_file both_line)"
    by (simp add: both_line_def get_file_def is_file_level_def)
  have t: "\<exists>c u. total_covered (get_file both_line) = Some c
                     \<and> total_uncovered (get_file both_line) = Some u"
    by (simp add: both_line_def get_file_def)
  have s: "file_level_step literal_match {''*''} ''a.cpp'' (get_file both_line) (None, None)
       = (Some \<lparr>covered = 100, uncovered = 5\<rparr>, None)"
    by (simp add: file_level_step_def both_line_def get_file_def literal_match_def)
  from file_level_classification [OF n, of literal_match "{''*''}" "[]" None None None] f t s
  have "process_line literal_match {''*''} [] both_line (None, None)
       = Inr (Some \<lparr>covered = 100, uncovered = 5\<rparr>, None)
    \<and> process_line literal_match {''*''} [] (both_line\<lparr>method_key := None\<rparr>) (None, None)
       = Inr (Some \<lparr>covered = 100, uncovered = 5\<rparr>, None)"
    by simp
  with n f show ?thesis by blast
qed

theorem file_level_with_method_counterexample:
  "\<not> claimed_file_level both_line
   \<and> method_level_step literal_match [(''a.cpp'', CreateSourceMatcher accept_any)] ''a.cpp''
        both_line (None, None) = Inr (None, Some (3, 1))
   \<and> process_line literal_match {} [(''a.cpp'', CreateSourceMatcher accept_any)]
        both_line (None, None) = Inr (None, None)
   \<and> ApplyFunc literal_match [both_line] [(''a.cpp'', accept_any)] = Inr None"
  by code_simp

text \<open>
  Claim C3, as amended. The extraction fails with the assertion error, and so returns no
  result, exactly when the report holds a line that has no filename, or that is not
  file-level and has no \<open>method\<close> object or no method name, or that is not file-level,
  passes the filters (a configured glob matches the filename and every matched filter
  accepts the method name) and lacks one of the two method counts. The counts of a line
  that does not pass the filters are never read.
\<close>

theorem missing_field_fails_iff:
  assumes "distinct (map fst source_filters)"
  shows "(ApplyFunc path_match coverage_file source_filters = Inl AssertionError)
         = (\<exists>data \<in> set coverage_file. line_fails path_match source_filters data)"
proof -
  have only: "e = AssertionError" for e :: error by (cases e)
  have "(ApplyFunc path_match coverage_file source_filters = Inl AssertionError)
        = (read_lines path_match (match_all_globs source_filters)
             (matchers_of source_filters) coverage_file (None, None) = Inl AssertionError)"
    using assms only by (auto simp: ApplyFunc_distinct split: sum.splits)
  then show ?thesis by (simp only: read_lines_fails_iff)
qed

theorem missing_field_fails_iff_witness:
  "distinct (map fst [(''a.cpp'', accept_any)])
   \<and> line_fails literal_match [(''a.cpp'', accept_any)]
        (method_line ''a.cpp'' ''ns::f'' None (Some 1))
   \<and> ApplyFunc literal_match
        [method_line ''a.cpp'' ''ns::g'' (Some 3) (Some 1),
         method_line ''a.cpp'' ''ns::f'' None (Some 1)]
        [(''a.cpp'', accept_any)] = Inl AssertionError"
proof -
  have d: "distinct (map fst [(''a.cpp'', accept_any)])" by simp
  have f: "line_fails literal_match [(''a.cpp'', accept_any)]
        (method_line ''a.cpp'' ''ns::f'' None (Some 1))" by code_simp
  from missing_field_fails_iff [OF d, of literal_match
         "[method_line ''a.cpp'' ''ns::g'' (Some 3) (Some 1),
           method_line ''a.cpp'' ''ns::f'' None (Some 1)]"] f
  have "ApplyFunc literal_match
        [method_line ''a.cpp'' ''ns::g'' (Some 3) (Some 1),
         method_line ''a.cpp'' ''ns::f'' None (Some 1)]
        [(''a.cpp'', accept_any)] = Inl AssertionError" by simp
  with d f show ?thesis by blast
qed

theorem missing_totals_unmatched_counterexample:
  "\<not> is_file_level (get_file (method_line ''a.cpp'' ''ns::f'' None None))
   \<and> total_covered (the (method_key (method_line ''a.cpp'' ''ns::f'' None None))) = None
   \<and> total_uncovered (the (method_key (method_line ''a.cpp'' ''ns::f'' None None))) = None
   \<and> ApplyFunc literal_match [method_line ''a.cpp'' ''ns::f'' None None]
        [(''b.cpp'', accept_any)] = Inr None
   \<and> ApplyFunc literal_match
        [method_line ''a.cpp'' ''ns::f'' None None,
         method_line ''a.cpp'' ''ns::g'' (Some 3) (Some 1)]
        [(''a.cpp'', only_other), (''*'', only_ns)] = Inr None"
  by code_simp

text \<open>
  Claim C4. When the extraction returns, its result is selected as follows: if some line
  passed the filters, the result is the sum of the counts of the lines that passed; if
  none did and some file-level line matched a match-all glob, the result is the totals of
  the first such line; otherwise there is no result, which is not the result of two zeros.
  In the report with the file-level totals 100 and 5 under a match-all glob and accepted
  method counts summing to 40 and 2, the result is 40 and 2. After the loop, a method-level
  sum is returned if there is one, whatever the file-level result, and the file-level
  result (present or absent) is returned otherwise.
\<close>

theorem ApplyFunc_result_selection:
  "(distinct (map fst source_filters)
    \<and> ApplyFunc path_match coverage_file source_filters = Inr r
    \<longrightarrow> r = (if filter (line_accepted path_match source_filters) coverage_file \<noteq> []
             then Some \<lparr>covered = fst (sum_counts (filter (line_accepted path_match
                                                          source_filters) coverage_file)),
                        uncovered = snd (sum_counts (filter (line_accepted path_match
                                                            source_filters) coverage_file))\<rparr>
             else (case filter (line_captured path_match source_filters) coverage_file of
                     [] \<Rightarrow> None
                   | data # _ \<Rightarrow> Some (file_totals data))))
   \<and> ApplyFunc literal_match
        [file_line ''a.cpp'' 100 5,
         method_line ''a.cpp'' ''ns::f'' (Some 30) (Some 1),
         method_line ''a.cpp'' ''other::h'' (Some 7) (Some 3),
         method_line ''a.cpp'' ''ns::g'' (Some 10) (Some 1)]
        [(''*'', every_file), (''a.cpp'', only_ns)]
      = Inr (Some \<lparr>covered = 40, uncovered = 2\<rparr>)
   \<and> select_result (file_result, Some (c, u)) = Some \<lparr>covered = c, uncovered = u\<rparr>
   \<and> select_result (file_result, None) = file_result"
proof -
  have after_loop:
    "select_result (file_result, Some (c, u)) = Some \<lparr>covered = c, uncovered = u\<rparr>
     \<and> select_result (file_result, None) = file_result"
    by (simp add: select_result_def split: option.splits)
  have general: "r = (if filter (line_accepted path_match source_filters) coverage_file \<noteq> []
             then Some \<lparr>covered = fst (sum_counts (filter (line_accepted path_match
                                                          source_filters) coverage_file)),
                        uncovered = snd (sum_counts (filter (line_accepted path_match
                                                            source_filters) coverage_file))\<rparr>
             else (case filter (line_captured path_match source_filters) coverage_file of
                     [] \<Rightarrow> None
                   | data # _ \<Rightarrow> Some (file_totals data)))"
    if d: "distinct (map fst source_filters)"
      and a: "ApplyFunc path_match coverage_file source_filters = Inr r"
  proof -
    from a obtain file_result result where
      loop: "read_lines path_match (match_all_globs source_filters)
               (matchers_of source_filters) coverage_file (None, None)
             = Inr (file_result, result)"
      and r: "r = select_result (file_result, result)"
      by (auto simp: ApplyFunc_distinct [OF d] split: sum.splits)
    from read_lines_Inr [OF loop] r show ?thesis
      by (simp add: select_result_def split: list.splits)
  qed
  have example: "ApplyFunc literal_match
        [file_line ''a.cpp'' 100 5,
         method_line ''a.cpp'' ''ns::f'' (Some 30) (Some 1),
         method_line ''a.cpp'' ''other::h'' (Some 7) (Some 3),
         method_line ''a.cpp'' ''ns::g'' (Some 10) (Some 1)]
        [(''*'', every_file), (''a.cpp'', only_ns)]
      = Inr (Some \<lparr>covered = 40, uncovered = 2\<rparr>)"
    by code_simp
  from general example after_loop show ?thesis by blast
qed

theorem ApplyFunc_result_selection_witness:
  "distinct (map fst [(''*'', every_file), (''a.cpp'', only_ns)])
   \<and> ApplyFunc literal_match
        [file_line ''a.cpp'' 100 5, file_line ''b.cpp'' 7 7,
         method_line ''a.cpp'' ''other::h'' (Some 7) (Some 3)]
        [(''*'', every_file), (''a.cpp'', only_ns)]
      = Inr (Some \<lparr>covered = 100, uncovered = 5\<rparr>)
   \<and> filter (line_accepted literal_match [(''*'', every_file), (''a.cpp'', only_ns)])
        [file_line ''a.cpp'' 100 5, file_line ''b.cpp'' 7 7,
         method_line ''a.cpp'' ''other::h'' (Some 7) (Some 3)] = []
   \<and> (case filter (line_captured literal_match [(''*'', every_file), (''a.cpp'', only_ns)])
              [file_line ''a.cpp'' 100 5, file_line ''b.cpp'' 7 7,
               method_line ''a.cpp'' ''other::h'' (Some 7) (Some 3)] of
         [] \<Rightarrow> None
       | data # _ \<Rightarrow> Some (file_totals data)) = Some \<lparr>covered = 100, uncovered = 5\<rparr>"
proof -
  have d: "distinct (map fst [(''*'', every_file), (''a.cpp'', only_ns)])" by simp
  have a: "ApplyFunc literal_match
        [file_line ''a.cpp'' 100 5, file_line ''b.cpp'' 7 7,
         method_line ''a.cpp'' ''other::h'' (Some 7) (Some 3)]
        [(''*'', every_file), (''a.cpp'', only_ns)]
      = Inr (Some \<lparr>covered = 100, uncovered = 5\<rparr>)" by code_simp
  have n: "filter (line_accepted literal_match [(''*'', every_file), (''a.cpp'', only_ns)])
        [file_line ''a.cpp'' 100 5, file_line ''b.cpp'' 7 7,
         method_line ''a.cpp'' ''other::h'' (Some 7) (Some 3)] = []" by code_simp
  from ApplyFunc_result_selection
         [of "[(''*'', every_file), (''a.cpp'', only_ns)]" literal_match
             "[file_line ''a.cpp'' 100 5, file_line ''b.cpp'' 7 7,
               method_line ''a.cpp'' ''other::h'' (Some 7) (Some 3)]"
             "Some \<lparr>covered = 100, uncovered = 5\<rparr>"] d a n
  have "(case filter (line_captured literal_match [(''*'', every_file), (''a.cpp'', only_ns)])
              [file_line ''a.cpp'' 100 5, file_line ''b.cpp'' 7 7,
               method_line ''a.cpp'' ''other::h'' (Some 7) (Some 3)] of
         [] \<Rightarrow> None
       | data # _ \<Rightarrow> Some (file_totals data)) = Some \<lparr>covered = 100, uncovered = 5\<rparr>"
    by simp
  with d a n show ?thesis by blast
qed

lemma match_all_globs_set:
  "set source_filters = set source_filters'
   \<Longrightarrow> match_all_globs source_filters = match_all_globs source_filters'"
  by (auto simp: match_all_globs_def)

lemma accepts_method_set:
  "set source_filters = set source_filters'
   \<Longrightarrow> accepts_method path_match source_filters filename method_name
       = accepts_method path_match source_filters' filename method_name"
  by (simp add: accepts_method_iff)

lemma process_line_set:
  assumes "set source_filters = set source_filters'"
  shows "process_line path_match (match_all_globs source_filters) (matchers_of source_filters)
           data st
         = process_line path_match (match_all_globs source_filters')
             (matchers_of source_filters') data st"
  by (cases st)
     (simp add: process_line_def method_level_step_def Let_def matchers_of_accepts
        match_all_globs_set [OF assms] accepts_method_set [OF assms]
      split: option.splits)

lemma read_lines_set:
  assumes "set source_filters = set source_filters'"
  shows "read_lines path_match (match_all_globs source_filters) (matchers_of source_filters)
           coverage_file st
         = read_lines path_match (match_all_globs source_filters')
             (matchers_of source_filters') coverage_file st"
  by (induction coverage_file arbitrary: st)
     (simp_all add: process_line_set [OF assms] split: sum.splits)

text \<open>
  Claim C9. The extraction is a function of the report contents and of the filter mapping
  alone, and it leaves the report as it is: two runs on the same report and the same
  mapping return the same value, also when the items of the mapping are listed in another
  order.
\<close>

theorem ApplyFunc_depends_on_mapping_only:
  assumes "distinct (map fst source_filters)"
    and "distinct (map fst source_filters')"
    and "set source_filters = set source_filters'"
  shows "ApplyFunc path_match coverage_file source_filters
         = ApplyFunc path_match coverage_file source_filters'"
  by (simp add: ApplyFunc_distinct assms(1,2) read_lines_set [OF assms(3)])

theorem ApplyFunc_depends_on_mapping_only_witness:
  "distinct (map fst [(''*'', every_file), (''a.cpp'', only_ns)])
   \<and> distinct (map fst [(''a.cpp'', only_ns), (''*'', every_file)])
   \<and> set [(''*'', every_file), (''a.cpp'', only_ns)]
       = set [(''a.cpp'', only_ns), (''*'', every_file)]
   \<and> ApplyFunc literal_match
        [file_line ''a.cpp'' 100 5, method_line ''a.cpp'' ''ns::f'' (Some 30) (Some 1)]
        [(''a.cpp'', only_ns), (''*'', every_file)]
      = Inr (Some \<lparr>covered = 30, uncovered = 1\<rparr>)"
proof -
  have d: "distinct (map fst [(''*'', every_file), (''a.cpp'', only_ns)])" by simp
  have d': "distinct (map fst [(''a.cpp'', only_ns), (''*'', every_file)])" by simp
  have s: "set [(''*'', every_file), (''a.cpp'', only_ns)]
       = set [(''a.cpp'', only_ns), (''*'', every_file)]" by auto
  have a: "ApplyFunc literal_match
        [file_line ''a.cpp'' 100 5, method_line ''a.cpp'' ''ns::f'' (Some 30) (Some 1)]
        [(''*'', every_file), (''a.cpp'', only_ns)]
      = Inr (Some \<lparr>covered = 30, uncovered = 1\<rparr>)" by code_simp
  from ApplyFunc_depends_on_mapping_only [OF d d' s, of literal_match
         "[file_line ''a.cpp'' 100 5, method_line ''a.cpp'' ''ns::f'' (Some 30) (Some 1)]"] a
  have "ApplyFunc literal_match
        [file_line ''a.cpp'' 100 5, method_line ''a.cpp'' ''ns::f'' (Some 30) (Some 1)]
        [(''a.cpp'', only_ns), (''*'', every_file)]
      = Inr (Some \<lparr>covered = 30, uncovered = 1\<rparr>)" by simp
  with d d' s show ?thesis by blast
qed

lemma is_match_all_iff:
  "is_match_all v = (filter_includes v = Some [''*''] \<and> filter_excludes v = None)"
proof (cases "filter_includes v")
  case None
  then show ?thesis by (simp add: is_match_all_def or_empty_def)
next
  case (Some xs)
  have "(length xs = 1 \<and> xs ! 0 = ''*'') = (xs = [''*''])"
    by (cases xs) auto
  with Some show ?thesis by (auto simp: is_match_all_def or_empty_def)
qed

lemma matchers_of_keys:
  "fst ` set (matchers_of source_filters)
   = {k. \<exists>v. (k, v) \<in> set source_filters \<and> \<not> is_match_all v}"
  by (force simp: matchers_of_def)

lemma match_all_globs_keys:
  "match_all_globs source_filters
   = {k. \<exists>v. (k, v) \<in> set source_filters \<and> is_match_all v}"
  by (force simp: match_all_globs_def)

text \<open>
  Claim C5, as amended. A filter is sent to the match-all set exactly when its includes are
  the one-element list with the glob \<open>*\<close> and its excludes are absent (\<open>None\<close>; an empty
  list of excludes is not absent); the globs of the match-all set are kept out of the
  source matchers. A file-level line sets the file-level result only when none is set yet
  and its filename matches a glob of the match-all set, so that after the loop the
  file-level result is that of the first such line.
\<close>

theorem match_all_filters_and_capture:
  "(is_match_all v = (filter_includes v = Some [''*''] \<and> filter_excludes v = None))
   \<and> (distinct (map fst source_filters) \<longrightarrow>
        fst (create_matchers source_filters ({}, []))
          = {k. \<exists>v. (k, v) \<in> set source_filters \<and> is_match_all v}
        \<and> fst ` set (snd (create_matchers source_filters ({}, [])))
          = {k. \<exists>v. (k, v) \<in> set source_filters \<and> \<not> is_match_all v})
   \<and> file_level_step path_match globs filename file_data (file_result, result)
        = (if file_result = None \<and> (\<exists>glob \<in> globs. path_match filename glob)
           then (Some \<lparr>covered = the (total_covered file_data),
                        uncovered = the (total_uncovered file_data)\<rparr>, result)
           else (file_result, result))
   \<and> (distinct (map fst source_filters)
        \<and> create_matchers source_filters ({}, []) = (globs', source_matchers)
        \<and> read_lines path_match globs' source_matchers coverage_file (None, None)
            = Inr (file_result', result')
        \<longrightarrow> file_result'
            = (case filter (line_captured path_match source_filters) coverage_file of
                 [] \<Rightarrow> None
               | data # _ \<Rightarrow> Some (file_totals data)))"
proof -
  have sets: "fst (create_matchers source_filters ({}, []))
          = {k. \<exists>v. (k, v) \<in> set source_filters \<and> is_match_all v}
        \<and> fst ` set (snd (create_matchers source_filters ({}, [])))
          = {k. \<exists>v. (k, v) \<in> set source_filters \<and> \<not> is_match_all v}"
    if "distinct (map fst source_filters)"
    using that matchers_of_keys [of source_filters] match_all_globs_keys [of source_filters]
    by (simp add: create_matchers_distinct matchers_of_def)
  have step: "file_level_step path_match globs filename file_data (file_result, result)
        = (if file_result = None \<and> (\<exists>glob \<in> globs. path_match filename glob)
           then (Some \<lparr>covered = the (total_covered file_data),
                        uncovered = the (total_uncovered file_data)\<rparr>, result)
           else (file_result, result))"
    by (simp add: file_level_step_def)
  have first: "file_result'
            = (case filter (line_captured path_match source_filters) coverage_file of
                 [] \<Rightarrow> None
               | data # _ \<Rightarrow> Some (file_totals data))"
    if d: "distinct (map fst source_filters)"
      and cm: "create_matchers source_filters ({}, []) = (globs', source_matchers)"
      and loop: "read_lines path_match globs' source_matchers coverage_file (None, None)
            = Inr (file_result', result')"
  proof -
    from d cm have "globs' = match_all_globs source_filters"
      and "source_matchers = matchers_of source_filters"
      by (simp_all add: create_matchers_distinct matchers_of_def)
    with loop have "read_lines path_match (match_all_globs source_filters)
        (matchers_of source_filters) coverage_file (None, None) = Inr (file_result', result')"
      by simp
    from read_lines_Inr [OF this] show ?thesis by simp
  qed
  from is_match_all_iff [of v] sets step first show ?thesis by blast
qed

theorem match_all_filters_and_capture_witness:
  "distinct (map fst [(''*'', every_file), (''a.cpp'', only_ns)])
   \<and> create_matchers [(''*'', every_file), (''a.cpp'', only_ns)] ({}, [])
       = ({''*''}, [(''a.cpp'', CreateSourceMatcher only_ns)])
   \<and> read_lines literal_match {''*''} [(''a.cpp'', CreateSourceMatcher only_ns)]
        [file_line ''a.cpp'' 100 5, file_line ''b.cpp'' 7 7] (None, None)
       = Inr (Some \<lparr>covered = 100, uncovered = 5\<rparr>, None)
   \<and> (case filter (line_captured literal_match [(''*'', every_file), (''a.cpp'', only_ns)])
              [file_line ''a.cpp'' 100 5, file_line ''b.cpp'' 7 7] of
         [] \<Rightarrow> None
       | data # _ \<Rightarrow> Some (file_totals data)) = Some \<lparr>covered = 100, uncovered = 5\<rparr>"
proof -
  have d: "distinct (map fst [(''*'', every_file), (''a.cpp'', only_ns)])" by simp
  have cm: "create_matchers [(''*'', every_file), (''a.cpp'', only_ns)] ({}, [])
       = ({''*''}, [(''a.cpp'', CreateSourceMatcher only_ns)])"
    by (simp add: is_match_all_def every_file_def only_ns_def or_empty_def)
  have loop: "read_lines literal_match {''*''} [(''a.cpp'', CreateSourceMatcher only_ns)]
        [file_line ''a.cpp'' 100 5, file_line ''b.cpp'' 7 7] (None, None)
       = Inr (Some \<lparr>covered = 100, uncovered = 5\<rparr>, None)"
    by (simp add: process_line_def file_level_step_def file_line_def get_file_def
          is_file_level_def literal_match_def)
  from match_all_filters_and_capture
         [of every_file "[(''*'', every_file), (''a.cpp'', only_ns)]" literal_match "{}"
             "''x''" empty_object None None "{''*''}"
             "[(''a.cpp'', CreateSourceMatcher only_ns)]"
             "[file_line ''a.cpp'' 100 5, file_line ''b.cpp'' 7 7]"
             "Some \<lparr>covered = 100, uncovered = 5\<rparr>" None] d cm loop
  have "(case filter (line_captured literal_match [(''*'', every_file), (''a.cpp'', only_ns)])
              [file_line ''a.cpp'' 100 5, file_line ''b.cpp'' 7 7] of
         [] \<Rightarrow> None
       | data # _ \<Rightarrow> Some (file_totals data)) = Some \<lparr>covered = 100, uncovered = 5\<rparr>"
    by simp
  with d cm loop show ?thesis by blast
qed

theorem empty_excludes_counterexample:
  "filter_includes every_file_empty_excludes = Some [''*'']
   \<and> or_empty (filter_excludes every_file_empty_excludes) = []
   \<and> \<not> is_match_all every_file_empty_excludes
   \<and> ApplyFunc literal_match [file_line ''a.cpp'' 100 5] [(''*'', every_file_empty_excludes)]
       = Inr None
   \<and> ApplyFunc literal_match [file_line ''a.cpp'' 100 5] [(''*'', every_file)]
       = Inr (Some \<lparr>covered = 100, uncovered = 5\<rparr>)"
  by code_simp

end
